theory Spec2Isabelle
  imports Complex_Main
begin

section \<open>JavaScript values read by the content script\<close>

text \<open>
  The content script (class \<open>TruthlyExtension\<close>) receives the body of the analysis
  response from \<open>response.json()\<close>, so every value it inspects is a parsed JSON value or
  \<open>undefined\<close> (an absent property). A number is the mathematical value of a finite
  double, or one of the three non-finite doubles; the two zeros are one value here (both
  are falsy and both print as \<open>0\<close>).
\<close>

datatype jsnum = Finite real | PosInf | NegInf | NaN

datatype jsval =
    JUndefined
  | JNull
  | JBool bool
  | JNum jsnum
  | JStr string
  | JArr "jsval list"
  | JObj "(string \<times> jsval) list"

datatype exn = TypeError | ReferenceError

text \<open>ToBoolean, as used by \<open>if (v)\<close>, \<open>!v\<close>, \<open>a && b\<close> and \<open>a || b\<close>.\<close>

fun truthy :: "jsval \<Rightarrow> bool" where
  "truthy JUndefined = False"
| "truthy JNull = False"
| "truthy (JBool b) = b"
| "truthy (JNum (Finite q)) = (q \<noteq> 0)"
| "truthy (JNum NaN) = False"
| "truthy (JNum PosInf) = True"
| "truthy (JNum NegInf) = True"
| "truthy (JStr s) = (s \<noteq> [])"
| "truthy (JArr vs) = True"
| "truthy (JObj kvs) = True"

text \<open>\<open>a || b\<close> on values.\<close>

definition or_else :: "jsval \<Rightarrow> jsval \<Rightarrow> jsval" where
  "or_else a b = (if truthy a then a else b)"

text \<open>
  Property read \<open>v.k\<close> for the names this program reads (\<open>success\<close>, \<open>data\<close>,
  \<open>label\<close>, \<open>confidence\<close>, \<open>summary\<close>, \<open>model\<close>): an object yields its own property,
  and a string, number, boolean or array has none of these names, so the read yields
  \<open>undefined\<close>. Every read in the program is on a value already tested truthy, so the
  TypeError of a read on \<open>null\<close> or \<open>undefined\<close> is never reached.
\<close>

fun get_prop :: "jsval \<Rightarrow> string \<Rightarrow> jsval" where
  "get_prop (JObj kvs) k = (case map_of kvs k of Some v \<Rightarrow> v | None \<Rightarrow> JUndefined)"
| "get_prop v k = JUndefined"

text \<open>
  \<open>s.toLowerCase()\<close> on the ASCII letters; other characters are kept. No character
  outside ASCII lowers to a letter of \<open>trustworthy\<close> or \<open>real\<close>, so the two comparisons
  of \<open>displayLabel\<close> come out as in JavaScript. A value that is not a string has no
  method \<open>toLowerCase\<close>: the call throws a TypeError.
\<close>

definition lower_char :: "char \<Rightarrow> char" where
  "lower_char c =
     (let n = of_char c :: nat
      in if 65 \<le> n \<and> n \<le> 90
         then (case c of Char b0 b1 b2 b3 b4 b5 b6 b7 \<Rightarrow> Char b0 b1 b2 b3 b4 True b6 b7)
         else c)"

definition toLowerCase :: "jsval \<Rightarrow> exn + string" where
  "toLowerCase v = (case v of JStr s \<Rightarrow> Inr (map lower_char s) | _ \<Rightarrow> Inl TypeError)"

text \<open>
  \<open>Math.round\<close>: the nearest integer, a tie going up; non-finite numbers are returned
  as they are.
\<close>

fun Math_round :: "jsnum \<Rightarrow> jsnum" where
  "Math_round (Finite q) = Finite (of_int \<lfloor>q + 1 / 2\<rfloor>)"
| "Math_round PosInf = PosInf"
| "Math_round NegInf = NegInf"
| "Math_round NaN = NaN"

text \<open>
  ToNumber, applied by \<open>Math.round\<close> to its argument, and ToString, applied by a
  template literal to the values it substitutes. What the engine does beyond the cases
  written out here is a parameter of the model, the record \<open>engine\<close>: the conversion of a
  string, an array or an object to a number (parsing a numeral and rounding it to a
  double; for an array or an object, first the search for a callable \<open>valueOf\<close> or
  \<open>toString\<close>, which throws a TypeError when a parsed object carries keys of these
  names), and the conversion of every value but a string to a string (the digits of a
  double; for an array or an object, the same search).
\<close>

record engine =
  num_of :: "jsval \<Rightarrow> exn + jsnum"
  str_of :: "jsval \<Rightarrow> exn + string"

fun ToNumber :: "engine \<Rightarrow> jsval \<Rightarrow> exn + jsnum" where
  "ToNumber eng JUndefined = Inr NaN"
| "ToNumber eng JNull = Inr (Finite 0)"
| "ToNumber eng (JBool b) = Inr (if b then Finite 1 else Finite 0)"
| "ToNumber eng (JNum n) = Inr n"
| "ToNumber eng v = num_of eng v"

fun ToString :: "engine \<Rightarrow> jsval \<Rightarrow> exn + string" where
  "ToString eng (JStr s) = Inr s"
| "ToString eng v = str_of eng v"

text \<open>\<open>s.startsWith(p)\<close> and \<open>s.includes(p)\<close> (named \<open>includes_str\<close> here).\<close>

fun startsWith :: "string \<Rightarrow> string \<Rightarrow> bool" where
  "startsWith s [] = True"
| "startsWith [] (c # p) = False"
| "startsWith (x # s) (c # p) = (x = c \<and> startsWith s p)"

fun includes_str :: "string \<Rightarrow> string \<Rightarrow> bool" where
  "includes_str [] p = (p = [])"
| "includes_str (x # s) p = (startsWith (x # s) p \<or> includes_str s p)"

text \<open>The decimal digits of a status code, for the message of the HTTP error.\<close>

fun decimal :: "nat \<Rightarrow> string" where
  "decimal n =
     (if n < 10 then [char_of (48 + n)]
      else decimal (n div 10) @ [char_of (48 + n mod 10)])"

section \<open>The page\<close>

text \<open>
  A rendered label is what \<open>displayLabel\<close> or \<open>displayErrorLabel\<close> puts into its
  \<open>div.truthly-label\<close>: the verdict class, the confidence, the summary and the model
  substituted into the template (the two texts are taken to contain no markup) and the
  two data attributes of the feedback button; or the error label with its retry button,
  which remembers the result element it was made for.
\<close>

datatype label =
    Verdict (is_trustworthy: bool) (confidence: jsnum) (summary: string) (model: string)
      (analysis: jsval) (url: string)
  | ErrorLabel (retry_url: string) (owner: nat)

datatype widget = LabelDiv label | LoadingDiv

text \<open>
  One element matched by \<open>[data-ved]\<close>, as the queries of the script see it:
  \<^item> \<open>link\<close>: the \<open>href\<close> property of the first \<open>a[href]\<close> inside it;
  \<^item> \<open>h3\<close>, \<open>heading\<close>: the trimmed text of the first \<open>h3\<close> and of the first
    \<open>[role="heading"]\<close> inside it;
  \<^item> \<open>snippet\<close>: some element inside it matches \<open>[data-content-feature]\<close>, \<open>.VwiC3b\<close> or
    \<open>[data-ved] > div:last-child\<close>;
  \<^item> \<open>title_direct_child\<close>: the parent of the title element is the result itself;
  \<^item> \<open>has_parent\<close>: the result has a parent element;
  \<^item> \<open>mark\<close>: \<open>dataset.truthlyProcessing\<close>, absent or a string;
  \<^item> \<open>labels\<close>: the \<open>.truthly-label\<close> elements inside it;
  \<^item> \<open>loading\<close>: the number of \<open>.truthly-loading\<close> elements inside it.
  The results of a page are taken to have disjoint subtrees, and a widget inserted as
  the next sibling of a result lies inside no result: it is kept in \<open>stray_labels\<close> or
  counted in \<open>stray_loading\<close>. The wrappers the script inserts never change where a
  later insertion for the same result lands.
\<close>

record result_elem =
  link :: "string option"
  h3 :: "string option"
  heading :: "string option"
  snippet :: bool
  title_direct_child :: bool
  has_parent :: bool
  mark :: "string option"
  labels :: "label list"
  loading :: nat

record dom =
  results :: "result_elem list"
  stray_labels :: "label list"
  stray_loading :: nat

text \<open>\<open>result.querySelector('h3') || result.querySelector('[role="heading"]')\<close>\<close>

definition title_of :: "result_elem \<Rightarrow> string option" where
  "title_of r = (case h3 r of Some t \<Rightarrow> Some t | None \<Rightarrow> heading r)"

definition add_widget :: "widget \<Rightarrow> result_elem \<Rightarrow> result_elem" where
  "add_widget w r =
     (case w of
        LabelDiv l \<Rightarrow> r\<lparr>labels := labels r @ [l]\<rparr>
      | LoadingDiv \<Rightarrow> r\<lparr>loading := Suc (loading r)\<rparr>)"

definition put_inside :: "nat \<Rightarrow> widget \<Rightarrow> dom \<Rightarrow> dom" where
  "put_inside i w d = d\<lparr>results := (results d)[i := add_widget w (results d ! i)]\<rparr>"

definition put_outside :: "widget \<Rightarrow> dom \<Rightarrow> dom" where
  "put_outside w d =
     (case w of
        LabelDiv l \<Rightarrow> d\<lparr>stray_labels := stray_labels d @ [l]\<rparr>
      | LoadingDiv \<Rightarrow> d\<lparr>stray_loading := Suc (stray_loading d)\<rparr>)"

text \<open>
  \<open>insertLabel\<close>. The insertion point is the snippet element, else the parent of the
  title element, else the first child of the result; the wrapper goes after the
  insertion point, into the insertion point's parent. A snippet and a first child are
  inside the result, so the wrapper lands inside it. The parent of the title element is
  the result itself when the title is a direct child: the wrapper then becomes the next
  sibling of the result, outside it. Without any insertion point, or when the insertion
  point has no parent, the wrapper is appended to the result.
\<close>

definition insertLabel :: "nat \<Rightarrow> widget \<Rightarrow> dom \<Rightarrow> dom" where
  "insertLabel i w d =
     (let r = results d ! i
      in if snippet r then put_inside i w d
         else if title_of r \<noteq> None then
           (if title_direct_child r
            then (if has_parent r then put_outside w d else put_inside i w d)
            else put_inside i w d)
         else put_inside i w d)"

definition addLoadingIndicator :: "nat \<Rightarrow> dom \<Rightarrow> dom" where
  "addLoadingIndicator i d =
     (if 0 < loading (results d ! i) then d else insertLabel i LoadingDiv d)"

definition removeLoadingIndicator :: "nat \<Rightarrow> dom \<Rightarrow> dom" where
  "removeLoadingIndicator i d =
     (let r = results d ! i
      in if 0 < loading r then d\<lparr>results := (results d)[i := r\<lparr>loading := loading r - 1\<rparr>]\<rparr>
         else d)"

definition set_mark :: "nat \<Rightarrow> string option \<Rightarrow> dom \<Rightarrow> dom" where
  "set_mark i m d = d\<lparr>results := (results d)[i := (results d ! i)\<lparr>mark := m\<rparr>]\<rparr>"

definition removeAllLabels :: "dom \<Rightarrow> dom" where
  "removeAllLabels d =
     d\<lparr>results := map (\<lambda>r. r\<lparr>labels := [], loading := 0, mark := None\<rparr>) (results d),
       stray_labels := [], stray_loading := 0\<rparr>"

definition all_labels :: "dom \<Rightarrow> label list" where
  "all_labels d = concat (map labels (results d)) @ stray_labels d"

definition all_loading :: "dom \<Rightarrow> nat" where
  "all_loading d = sum_list (map loading (results d)) + stray_loading d"

definition shouldProcessResult :: "result_elem \<Rightarrow> bool" where
  "shouldProcessResult r =
     (if labels r \<noteq> [] then False
      else if mark r = Some ''true'' then False
      else (case link r of
              None \<Rightarrow> False
            | Some u \<Rightarrow>
                if includes_str u ''google.com'' \<or> includes_str u ''maps.google.com''
                   \<or> includes_str u ''images.google.com'' \<or> startsWith u ''javascript:''
                then False
                else True))"

definition displayErrorLabel :: "nat \<Rightarrow> string \<Rightarrow> dom \<Rightarrow> dom" where
  "displayErrorLabel i u d = insertLabel i (LabelDiv (ErrorLabel u i)) d"

text \<open>
  \<open>displayLabel\<close>: a falsy \<open>analysis.label\<close> gives the error label. Otherwise the
  label is lowered (a TypeError when it is not a string), the confidence is converted
  and rounded, and the template is filled in, which converts the summary and the model
  to strings; only then is the verdict label inserted, so an exception leaves the page as
  it was.
\<close>

definition displayLabel :: "engine \<Rightarrow> nat \<Rightarrow> jsval \<Rightarrow> string \<Rightarrow> dom \<Rightarrow> exn + dom" where
  "displayLabel eng i a u d =
     (if truthy (get_prop a ''label'') then
        (case toLowerCase (get_prop a ''label'') of
           Inl e \<Rightarrow> Inl e
         | Inr low \<Rightarrow>
        (case ToNumber eng (or_else (get_prop a ''confidence'') (JNum (Finite 0))) of
           Inl e \<Rightarrow> Inl e
         | Inr n \<Rightarrow>
        (case ToString eng (or_else (get_prop a ''summary'') (JStr ''No summary available'')) of
           Inl e \<Rightarrow> Inl e
         | Inr summ \<Rightarrow>
        (case ToString eng (or_else (get_prop a ''model'') (JStr ''BART/LLaMA'')) of
           Inl e \<Rightarrow> Inl e
         | Inr modl \<Rightarrow>
             Inr (insertLabel i
               (LabelDiv (Verdict (low = ''trustworthy'' \<or> low = ''real'') (Math_round n)
                  summ modl a u)) d)))))
      else Inr (displayErrorLabel i u d))"

section \<open>The extension\<close>

record settings =
  enabled :: bool
  autoAnalyze :: bool
  cacheResults :: bool

text \<open>
  The state of one \<open>TruthlyExtension\<close>: its fields \<open>settings\<close> and \<open>cache\<close> (the field
  \<open>processingResults\<close> is never read or written after the constructor), the page, and
  what the asynchronous parts leave behind: the requests sent to
  \<open>/api/analyze-extension\<close> so far (\<open>netlog\<close>, each with its URL and title), the calls of
  \<open>processSearchResult\<close> suspended at their \<open>await\<close> (\<open>inflight\<close>, each with its result
  and URL), the timers of \<open>waitForSearchResults\<close> not yet fired, the number of calls of
  \<open>processSearchResult\<close> whose promise was rejected, and whether \<open>init\<close> registered the
  mutation observer and the message listener.
\<close>

record state =
  settings :: settings
  cache :: "string \<rightharpoonup> jsval"
  page :: dom
  netlog :: "(string \<times> string) list"
  inflight :: "(nat \<times> string) list"
  timers :: nat
  rejected :: nat
  listening :: bool

text \<open>The \<open>finally\<close> block of \<open>processSearchResult\<close>.\<close>

definition finally_block :: "nat \<Rightarrow> dom \<Rightarrow> dom" where
  "finally_block i d = removeLoadingIndicator i (set_mark i (Some ''false'') d)"

text \<open>
  The \<open>catch\<close> block of \<open>processSearchResult\<close> calls \<open>displayErrorLabel(result, url)\<close>,
  but \<open>url\<close> is declared with \<open>const\<close> inside the \<open>try\<close> block and is not in scope in the
  \<open>catch\<close> block (the page is taken to define no global of that name): evaluating the
  argument throws a ReferenceError before anything is displayed. The \<open>finally\<close> block
  runs and the promise of the call is rejected.
\<close>

definition catch_block :: "nat \<Rightarrow> state \<Rightarrow> state" where
  "catch_block i st = st\<lparr>page := finally_block i (page st), rejected := Suc (rejected st)\<rparr>"

text \<open>
  \<open>processSearchResult\<close> up to its \<open>await\<close>: it returns early without a link or a
  title, serves a cache hit, or shows the loading indicator and sends the request.
\<close>

definition processSearchResult :: "engine \<Rightarrow> nat \<Rightarrow> state \<Rightarrow> state" where
  "processSearchResult eng i st =
     (let st1 = st\<lparr>page := set_mark i (Some ''true'') (page st)\<rparr>;
          r = results (page st1) ! i
      in case (link r, title_of r) of
           (Some u, Some t) \<Rightarrow>
             (case cache st1 u of
                Some a \<Rightarrow>
                  (case displayLabel eng i a u (page st1) of
                     Inr d \<Rightarrow> st1\<lparr>page := finally_block i d\<rparr>
                   | Inl e \<Rightarrow> catch_block i st1)
              | None \<Rightarrow>
                  st1\<lparr>page := addLoadingIndicator i (page st1),
                      netlog := netlog st1 @ [(u, t)],
                      inflight := inflight st1 @ [(i, u)]\<rparr>)
         | _ \<Rightarrow> st1\<lparr>page := finally_block i (page st1)\<rparr>)"

text \<open>
  What the request settles to: the promise of \<open>fetch\<close> is rejected, or a response with a
  status arrives whose body parses as JSON or does not.
\<close>

datatype fetch_outcome = Rejected string | Response nat "string + jsval"

definition failure :: "string \<Rightarrow> jsval" where
  "failure msg = JObj [(''success'', JBool False), (''error'', JStr msg)]"

text \<open>The value \<open>analyzeUrlExtension\<close> returns once the request has settled.\<close>

definition analyzeUrlExtension :: "fetch_outcome \<Rightarrow> jsval" where
  "analyzeUrlExtension out =
     (case out of
        Rejected msg \<Rightarrow> failure msg
      | Response status body \<Rightarrow>
          if \<not> (200 \<le> status \<and> status \<le> 299)
          then failure (''HTTP error! status: '' @ decimal status)
          else (case body of Inl msg \<Rightarrow> failure msg | Inr v \<Rightarrow> v))"

text \<open>
  \<open>processSearchResult\<close> from its \<open>await\<close> on, for the suspended call at position \<open>k\<close>
  of \<open>inflight\<close>.
\<close>

definition resume :: "engine \<Rightarrow> nat \<Rightarrow> fetch_outcome \<Rightarrow> state \<Rightarrow> state" where
  "resume eng k out st =
     (if k < length (inflight st) then
        (let (i, u) = inflight st ! k;
             st1 = st\<lparr>inflight := take k (inflight st) @ drop (Suc k) (inflight st)\<rparr>;
             an = analyzeUrlExtension out
         in if truthy an \<and> truthy (get_prop an ''success'') \<and> truthy (get_prop an ''data'') then
              (let data = get_prop an ''data'';
                   st2 = (if cacheResults (settings st1)
                          then st1\<lparr>cache := (cache st1)(u \<mapsto> data)\<rparr> else st1)
               in case displayLabel eng i data u (page st2) of
                    Inr d \<Rightarrow> st2\<lparr>page := finally_block i d\<rparr>
                  | Inl e \<Rightarrow> catch_block i st2)
            else st1\<lparr>page := finally_block i (displayErrorLabel i u (page st1))\<rparr>)
      else st)"

definition waitForSearchResults :: "state \<Rightarrow> state" where
  "waitForSearchResults st = st\<lparr>timers := Suc (timers st)\<rparr>"

definition processSearchResults :: "engine \<Rightarrow> state \<Rightarrow> state" where
  "processSearchResults eng st =
     (if \<not> enabled (settings st) then st
      else fold (\<lambda>i s. if shouldProcessResult (results (page s) ! i)
                        then processSearchResult eng i s else s)
             [0 ..< length (results (page st))] st)"

datatype message = SETTINGS_UPDATED settings | CLEAR_CACHE | OTHER string

definition handleMessage :: "message \<Rightarrow> state \<Rightarrow> state" where
  "handleMessage m st =
     (case m of
        SETTINGS_UPDATED s \<Rightarrow>
          (let st1 = st\<lparr>settings := s\<rparr>
           in if \<not> enabled (settings st1)
              then st1\<lparr>page := removeAllLabels (page st1)\<rparr>
              else waitForSearchResults st1)
      | CLEAR_CACHE \<Rightarrow>
          (let st1 = st\<lparr>cache := Map.empty\<rparr>;
               st2 = st1\<lparr>page := removeAllLabels (page st1)\<rparr>
           in if enabled (settings st2) then waitForSearchResults st2 else st2)
      | OTHER t \<Rightarrow> st)"

section \<open>Events\<close>

text \<open>
  The click handler of a retry button: it removes its label, deletes the processing mark
  of the result the label was made for and calls \<open>processSearchResult\<close> for it. The
  label is named by its place: inside a result, or among the labels beside the results.
\<close>

datatype label_ref = InResult nat nat | Stray nat

definition retry :: "engine \<Rightarrow> label \<Rightarrow> dom \<Rightarrow> state \<Rightarrow> state" where
  "retry eng l d st =
     (case l of
        ErrorLabel u j \<Rightarrow> processSearchResult eng j (st\<lparr>page := set_mark j None d\<rparr>)
      | Verdict tr c s m a u \<Rightarrow> st)"

definition retryClick :: "engine \<Rightarrow> label_ref \<Rightarrow> state \<Rightarrow> state" where
  "retryClick eng ref st =
     (let d = page st
      in case ref of
           InResult i k \<Rightarrow>
             if i < length (results d) \<and> k < length (labels (results d ! i))
             then (let r = results d ! i; ls = labels r
                   in retry eng (ls ! k)
                        (d\<lparr>results := (results d)[i := r\<lparr>labels := take k ls @ drop (Suc k) ls\<rparr>]\<rparr>)
                        st)
             else st
         | Stray k \<Rightarrow>
             if k < length (stray_labels d)
             then (let ls = stray_labels d
                   in retry eng (ls ! k) (d\<lparr>stray_labels := take k ls @ drop (Suc k) ls\<rparr>) st)
             else st)"

text \<open>
  \<open>loadSettings\<close> and \<open>init\<close>: a stored flag counts as set unless it is exactly
  \<open>false\<close>; a disabled extension registers neither the observer nor the listener.
\<close>

record storage =
  stored_enabled :: jsval
  stored_autoAnalyze :: jsval
  stored_cacheResults :: jsval

definition loadSettings :: "storage \<Rightarrow> settings" where
  "loadSettings sto =
     \<lparr>enabled = (stored_enabled sto \<noteq> JBool False),
      autoAnalyze = (stored_autoAnalyze sto \<noteq> JBool False),
      cacheResults = (stored_cacheResults sto \<noteq> JBool False)\<rparr>"

definition init :: "storage \<Rightarrow> dom \<Rightarrow> state" where
  "init sto d =
     (let st = \<lparr>settings = loadSettings sto, cache = Map.empty, page = d, netlog = [],
                inflight = [], timers = 0, rejected = 0, listening = False\<rparr>
      in if \<not> enabled (settings st) then st
         else (waitForSearchResults st)\<lparr>listening := True\<rparr>)"

text \<open>
  What can happen to a running extension: a message arrives, a timer of
  \<open>waitForSearchResults\<close> fires, the mutation observer is called, a request settles, a
  retry button is clicked. An event that cannot happen in a state leaves it as it is.
\<close>

datatype event =
    Message message
  | TimerFires
  | Mutation
  | Settled nat fetch_outcome
  | RetryClick label_ref

definition step :: "engine \<Rightarrow> event \<Rightarrow> state \<Rightarrow> state" where
  "step eng e st =
     (case e of
        Message m \<Rightarrow> if listening st then handleMessage m st else st
      | TimerFires \<Rightarrow>
          if 0 < timers st then processSearchResults eng (st\<lparr>timers := timers st - 1\<rparr>)
          else st
      | Mutation \<Rightarrow>
          if listening st \<and> enabled (settings st) then waitForSearchResults st else st
      | Settled k out \<Rightarrow> resume eng k out st
      | RetryClick ref \<Rightarrow> retryClick eng ref st)"

definition run :: "engine \<Rightarrow> event list \<Rightarrow> state \<Rightarrow> state" where
  "run eng evs st = fold (step eng) evs st"

section \<open>Shapes of responses and of event sequences\<close>

text \<open>
  The data of a response is \<open>plain\<close> when its confidence is a number or falsy and its
  summary and model are strings or falsy, as the interface of the analysis service
  describes them; no conversion of such a value reaches the engine's parameters.
\<close>

fun is_num :: "jsval \<Rightarrow> bool" where
  "is_num (JNum n) = True"
| "is_num v = False"

fun is_str :: "jsval \<Rightarrow> bool" where
  "is_str (JStr s) = True"
| "is_str v = False"

definition plain :: "jsval \<Rightarrow> bool" where
  "plain a =
     ((is_num (get_prop a ''confidence'') \<or> \<not> truthy (get_prop a ''confidence''))
      \<and> (is_str (get_prop a ''summary'') \<or> \<not> truthy (get_prop a ''summary''))
      \<and> (is_str (get_prop a ''model'') \<or> \<not> truthy (get_prop a ''model'')))"

text \<open>
  For plain data, the number that \<open>Math.round\<close> receives from \<open>confidence || 0\<close> and
  the text that the template receives from \<open>summary || 'No summary available'\<close> or
  \<open>model || 'BART/LLaMA'\<close>.
\<close>

fun plain_number :: "jsval \<Rightarrow> jsnum" where
  "plain_number (JNum n) = (if truthy (JNum n) then n else Finite 0)"
| "plain_number v = Finite 0"

fun plain_text :: "jsval \<Rightarrow> string \<Rightarrow> string" where
  "plain_text (JStr s) dflt = (if s \<noteq> [] then s else dflt)"
| "plain_text v dflt = dflt"

text \<open>An event re-enables the extension when it is a settings update with \<open>enabled\<close> set.\<close>

fun re_enables :: "event \<Rightarrow> bool" where
  "re_enables (Message (SETTINGS_UPDATED s)) = enabled s"
| "re_enables e = False"

text \<open>
  A state is quiet when the extension is disabled, no call is suspended, no label is on
  the page and the request log is the given one.
\<close>

definition quiet :: "(string \<times> string) list \<Rightarrow> state \<Rightarrow> bool" where
  "quiet n st \<longleftrightarrow>
     \<not> enabled (settings st) \<and> inflight st = [] \<and> all_labels (page st) = [] \<and> netlog st = n"

section \<open>Example inputs\<close>

text \<open>
  The inputs at which the theorems below are instantiated: an engine whose parameters
  are never reached by them, the search hit of the specification's scenario and two
  variants of it (one without a title, one whose title is a direct child and that has no
  snippet), states built from them, and response bodies.
\<close>

definition stub_engine :: engine where
  "stub_engine = \<lparr>num_of = (\<lambda>v. Inr NaN), str_of = (\<lambda>v. Inl TypeError)\<rparr>"

definition example_result :: result_elem where
  "example_result =
     \<lparr>link = Some ''http://example.com/a'', h3 = Some ''Example'', heading = None,
      snippet = True, title_direct_child = False, has_parent = True, mark = None,
      labels = [], loading = 0\<rparr>"

definition untitled_result :: result_elem where
  "untitled_result =
     \<lparr>link = Some ''http://example.com/a'', h3 = None, heading = None,
      snippet = True, title_direct_child = False, has_parent = True, mark = None,
      labels = [], loading = 0\<rparr>"

definition flat_result :: result_elem where
  "flat_result =
     \<lparr>link = Some ''http://example.com/a'', h3 = Some ''Example'', heading = None,
      snippet = False, title_direct_child = True, has_parent = True, mark = None,
      labels = [], loading = 0\<rparr>"

definition example_page :: dom where
  "example_page = \<lparr>results = [example_result], stray_labels = [], stray_loading = 0\<rparr>"

definition default_storage :: storage where
  "default_storage =
     \<lparr>stored_enabled = JUndefined, stored_autoAnalyze = JUndefined,
      stored_cacheResults = JUndefined\<rparr>"

definition example_state :: state where
  "example_state = init default_storage example_page"

definition flat_state :: state where
  "flat_state =
     init default_storage \<lparr>results = [flat_result], stray_labels = [], stray_loading = 0\<rparr>"

definition requested_state :: state where
  "requested_state = step stub_engine TimerFires example_state"

definition example_data :: jsval where
  "example_data =
     JObj [(''label'', JStr ''Real''), (''confidence'', JNum (Finite (874 / 10))),
           (''summary'', JStr ''ok''), (''model'', JStr ''X'')]"

definition example_body :: jsval where
  "example_body = JObj [(''success'', JBool True), (''data'', example_data)]"

definition cached_state :: state where
  "cached_state = example_state\<lparr>cache := [''http://example.com/a'' \<mapsto> example_data]\<rparr>"

definition shouting_data :: jsval where
  "shouting_data =
     JObj [(''label'', JStr ''TRUSTworthy''), (''confidence'', JNum (Finite (5 / 2)))]"

definition overconfident_data :: jsval where
  "overconfident_data = JObj [(''label'', JStr ''Real''), (''confidence'', JNum (Finite 150))]"

definition labelless_body :: jsval where
  "labelless_body = JObj [(''success'', JBool True), (''data'', JObj [])]"

definition banana_body :: jsval where
  "banana_body =
     JObj [(''success'', JBool True), (''data'', JObj [(''label'', JStr ''banana'')])]"

definition numeric_label_body :: jsval where
  "numeric_label_body =
     JObj [(''success'', JBool True), (''data'', JObj [(''label'', JNum (Finite 5))])]"

definition switched_off :: settings where
  "switched_off = \<lparr>enabled = False, autoAnalyze = True, cacheResults = True\<rparr>"

definition caching_off :: settings where
  "caching_off = \<lparr>enabled = True, autoAnalyze = True, cacheResults = False\<rparr>"

section \<open>Properties of the string and page operations\<close>

subsection \<open>Strings\<close>

lemma startsWith_iff: "startsWith s p \<longleftrightarrow> (\<exists>b. s = p @ b)"
  by (induction s p rule: startsWith.induct) auto

lemma includes_str_iff: "includes_str s p \<longleftrightarrow> (\<exists>a b. s = a @ p @ b)"
proof (induction s)
  case Nil
  then show ?case by simp
next
  case (Cons x s)
  show ?case
  proof
    assume "includes_str (x # s) p"
    then consider "startsWith (x # s) p" | "includes_str s p" by auto
    then show "\<exists>a b. x # s = a @ p @ b"
    proof cases
      case 1
      then obtain b where "x # s = p @ b" by (auto simp: startsWith_iff)
      then have "x # s = [] @ p @ b" by simp
      then show ?thesis by blast
    next
      case 2
      then obtain a b where "s = a @ p @ b" using Cons.IH by blast
      then have "x # s = (x # a) @ p @ b" by simp
      then show ?thesis by blast
    qed
  next
    assume "\<exists>a b. x # s = a @ p @ b"
    then obtain a b where ab: "x # s = a @ p @ b" by blast
    show "includes_str (x # s) p"
    proof (cases a)
      case Nil
      with ab have "startsWith (x # s) p" by (auto simp: startsWith_iff)
      then show ?thesis by simp
    next
      case (Cons y a')
      with ab have "s = a' @ p @ b" by simp
      then have "includes_str s p" using Cons.IH by blast
      then show ?thesis by simp
    qed
  qed
qed

lemma includes_str_suffix: "includes_str s (p @ q) \<Longrightarrow> includes_str s q"
proof -
  assume "includes_str s (p @ q)"
  then obtain a b where "s = a @ (p @ q) @ b" by (auto simp: includes_str_iff)
  then have "s = (a @ p) @ q @ b" by simp
  then show ?thesis unfolding includes_str_iff by blast
qed

subsection \<open>The results of a page stay in place\<close>

lemma length_results_put_inside [simp]: "length (results (put_inside i w d)) = length (results d)"
  by (simp add: put_inside_def)

lemma length_results_put_outside [simp]: "length (results (put_outside w d)) = length (results d)"
  by (simp add: put_outside_def split: widget.splits)

lemma length_results_insertLabel [simp]: "length (results (insertLabel i w d)) = length (results d)"
  by (simp add: insertLabel_def Let_def)

lemma length_results_set_mark [simp]: "length (results (set_mark i m d)) = length (results d)"
  by (simp add: set_mark_def)

lemma length_results_removeLoadingIndicator [simp]:
  "length (results (removeLoadingIndicator i d)) = length (results d)"
  by (simp add: removeLoadingIndicator_def Let_def)

lemma length_results_addLoadingIndicator [simp]:
  "length (results (addLoadingIndicator i d)) = length (results d)"
  by (simp add: addLoadingIndicator_def)

lemma length_results_finally_block [simp]:
  "length (results (finally_block i d)) = length (results d)"
  by (simp add: finally_block_def)

lemma length_results_displayErrorLabel [simp]:
  "length (results (displayErrorLabel i u d)) = length (results d)"
  by (simp add: displayErrorLabel_def)

lemma length_results_displayLabel:
  "displayLabel eng i a u d = Inr d' \<Longrightarrow> length (results d') = length (results d)"
  by (auto simp: displayLabel_def split: if_splits sum.splits)

subsection \<open>The labels on the page\<close>

lemma set_concat_map_update_insert:
  "i < length xs \<Longrightarrow> set (f y) = insert l (set (f (xs ! i)))
   \<Longrightarrow> set (concat (map f (xs[i := y]))) = insert l (set (concat (map f xs)))"
proof (induction xs arbitrary: i)
  case Nil
  then show ?case by simp
next
  case (Cons x xs)
  then show ?case by (cases i) auto
qed

lemma map_update_same: "i < length xs \<Longrightarrow> f y = f (xs ! i) \<Longrightarrow> map f (xs[i := y]) = map f xs"
  by (simp add: map_update list_update_same_conv)

lemma all_labels_put_inside_label:
  "i < length (results d) \<Longrightarrow>
   set (all_labels (put_inside i (LabelDiv l) d)) = insert l (set (all_labels d))"
proof -
  assume i: "i < length (results d)"
  let ?r = "(results d ! i)\<lparr>labels := labels (results d ! i) @ [l]\<rparr>"
  have "set (labels ?r) = insert l (set (labels (results d ! i)))" by simp
  from set_concat_map_update_insert [OF i this]
  show ?thesis by (simp add: all_labels_def put_inside_def add_widget_def del: set_concat)
qed

lemma all_labels_put_outside_label:
  "set (all_labels (put_outside (LabelDiv l) d)) = insert l (set (all_labels d))"
  by (simp add: all_labels_def put_outside_def)

lemma all_labels_insertLabel_label:
  "i < length (results d) \<Longrightarrow>
   set (all_labels (insertLabel i (LabelDiv l) d)) = insert l (set (all_labels d))"
  by (simp add: insertLabel_def Let_def all_labels_put_inside_label all_labels_put_outside_label)

lemma all_labels_set_mark [simp]: "all_labels (set_mark i m d) = all_labels d"
proof (cases "i < length (results d)")
  case True
  then show ?thesis by (simp add: all_labels_def set_mark_def map_update_same)
next
  case False
  then show ?thesis by (simp add: all_labels_def set_mark_def list_update_beyond)
qed

lemma all_labels_removeLoadingIndicator [simp]:
  "all_labels (removeLoadingIndicator i d) = all_labels d"
proof (cases "i < length (results d)")
  case True
  then show ?thesis by (simp add: all_labels_def removeLoadingIndicator_def Let_def map_update_same)
next
  case False
  then show ?thesis by (simp add: all_labels_def removeLoadingIndicator_def Let_def list_update_beyond)
qed

lemma all_labels_finally_block [simp]: "all_labels (finally_block i d) = all_labels d"
  by (simp add: finally_block_def)

lemma all_labels_put_inside_loading:
  "all_labels (put_inside i LoadingDiv d) = all_labels d"
proof (cases "i < length (results d)")
  case True
  then show ?thesis by (simp add: all_labels_def put_inside_def add_widget_def map_update_same)
next
  case False
  then show ?thesis by (simp add: all_labels_def put_inside_def list_update_beyond)
qed

lemma all_labels_addLoadingIndicator [simp]:
  "all_labels (addLoadingIndicator i d) = all_labels d"
  by (simp add: addLoadingIndicator_def insertLabel_def Let_def all_labels_put_inside_loading)
     (simp add: all_labels_def put_outside_def)

lemma all_labels_removeAllLabels [simp]: "all_labels (removeAllLabels d) = []"
  by (simp add: all_labels_def removeAllLabels_def o_def)

lemma all_loading_removeAllLabels [simp]: "all_loading (removeAllLabels d) = 0"
  by (simp add: all_loading_def removeAllLabels_def o_def)

subsection \<open>Marks\<close>

lemma results_set_mark_nth:
  "i < length (results d) \<Longrightarrow> results (set_mark i m d) ! i = (results d ! i)\<lparr>mark := m\<rparr>"
  by (simp add: set_mark_def)

lemma link_set_mark [simp]: "link (results (set_mark i m d) ! j) = link (results d ! j)"
  by (cases "i < length (results d)") (simp_all add: set_mark_def nth_list_update list_update_beyond)

lemma title_of_set_mark [simp]: "title_of (results (set_mark i m d) ! j) = title_of (results d ! j)"
  by (cases "i < length (results d)") (auto simp: set_mark_def nth_list_update list_update_beyond title_of_def split: option.splits)

lemma title_of_updates [simp]:
  "title_of (r\<lparr>mark := m\<rparr>) = title_of r"
  "title_of (r\<lparr>labels := ls\<rparr>) = title_of r"
  "title_of (r\<lparr>loading := n\<rparr>) = title_of r"
  by (simp_all add: title_of_def split: option.splits)

lemma finally_block_nth:
  "i < length (results d) \<Longrightarrow>
   mark (results (finally_block i d) ! i) = Some ''false''
   \<and> loading (results (finally_block i d) ! i) = loading (results d ! i) - 1"
  by (simp add: finally_block_def removeLoadingIndicator_def set_mark_def Let_def)

lemma insertLabel_label_nth:
  "length (results (insertLabel i (LabelDiv l) d)) = length (results d)
   \<and> loading (results (insertLabel i (LabelDiv l) d) ! j) = loading (results d ! j)"
  by (cases "i < length (results d)")
     (auto simp: insertLabel_def put_inside_def put_outside_def add_widget_def Let_def
        nth_list_update list_update_beyond)

lemma results_removeAllLabels_nth:
  "i < length (results d) \<Longrightarrow>
   results (removeAllLabels d) ! i = (results d ! i)\<lparr>labels := [], loading := 0, mark := None\<rparr>"
  by (simp add: removeAllLabels_def)

lemma length_results_removeAllLabels [simp]:
  "length (results (removeAllLabels d)) = length (results d)"
  by (simp add: removeAllLabels_def)

subsection \<open>Rounding\<close>

lemma round_nearest: "\<bar>real_of_int \<lfloor>q + 1 / 2\<rfloor> - q\<bar> \<le> 1 / 2"
  by linarith

subsection \<open>Plain data needs no conversion by the engine\<close>

lemma ToNumber_plain:
  "is_num v \<or> \<not> truthy v \<Longrightarrow>
   ToNumber eng (or_else v (JNum (Finite 0))) = Inr (plain_number v)"
  by (cases v) (auto simp: or_else_def)

lemma ToString_plain:
  "is_str v \<or> \<not> truthy v \<Longrightarrow> dflt \<noteq> [] \<Longrightarrow>
   ToString eng (or_else v (JStr dflt)) = Inr (plain_text v dflt)"
  by (cases v) (auto simp: or_else_def)

lemma displayLabel_plain:
  assumes "get_prop a ''label'' = JStr lab" and "lab \<noteq> []" and "plain a"
  shows "displayLabel eng i a u d
     = Inr (insertLabel i
         (LabelDiv (Verdict (map lower_char lab = ''trustworthy'' \<or> map lower_char lab = ''real'')
            (Math_round (plain_number (get_prop a ''confidence'')))
            (plain_text (get_prop a ''summary'') ''No summary available'')
            (plain_text (get_prop a ''model'') ''BART/LLaMA'') a u)) d)"
proof -
  have n: "ToNumber eng (or_else (get_prop a ''confidence'') (JNum (Finite 0)))
      = Inr (plain_number (get_prop a ''confidence''))"
    using assms(3) by (intro ToNumber_plain) (simp add: plain_def)
  have s: "ToString eng (or_else (get_prop a ''summary'') (JStr ''No summary available''))
      = Inr (plain_text (get_prop a ''summary'') ''No summary available'')"
    using assms(3) by (intro ToString_plain) (simp_all add: plain_def)
  have m: "ToString eng (or_else (get_prop a ''model'') (JStr ''BART/LLaMA''))
      = Inr (plain_text (get_prop a ''model'') ''BART/LLaMA'')"
    using assms(3) by (intro ToString_plain) (simp_all add: plain_def)
  show ?thesis
    using assms(1,2) by (simp add: displayLabel_def toLowerCase_def n s m)
qed

subsection \<open>What each operation leaves unchanged\<close>

lemma fold_preserves:
  assumes "\<And>x s. P s \<Longrightarrow> P (f x s)" and "P s"
  shows "P (fold f xs s)"
  using assms(2) by (induction xs arbitrary: s) (auto intro: assms(1))

lemma processSearchResult_frame:
  "cache (processSearchResult eng i st) = cache st
   \<and> settings (processSearchResult eng i st) = settings st
   \<and> timers (processSearchResult eng i st) = timers st
   \<and> listening (processSearchResult eng i st) = listening st"
  by (simp add: processSearchResult_def Let_def catch_block_def split: option.splits sum.splits)

lemma processSearchResults_frame:
  "cache (processSearchResults eng st) = cache st
   \<and> settings (processSearchResults eng st) = settings st
   \<and> timers (processSearchResults eng st) = timers st
   \<and> listening (processSearchResults eng st) = listening st"
proof -
  let ?P = "\<lambda>s. cache s = cache st \<and> settings s = settings st \<and> timers s = timers st
     \<and> listening s = listening st"
  have "?P (fold (\<lambda>i s. if shouldProcessResult (results (page s) ! i)
                        then processSearchResult eng i s else s) xs st)" for xs
    by (rule fold_preserves) (simp_all add: processSearchResult_frame)
  then show ?thesis by (simp add: processSearchResults_def)
qed

lemma retryClick_frame:
  "cache (retryClick eng ref st) = cache st
   \<and> settings (retryClick eng ref st) = settings st
   \<and> timers (retryClick eng ref st) = timers st
   \<and> listening (retryClick eng ref st) = listening st"
  by (simp add: retryClick_def retry_def Let_def processSearchResult_frame
      split: label_ref.splits label.splits)

lemma resume_frame:
  "settings (resume eng k out st) = settings st
   \<and> timers (resume eng k out st) = timers st
   \<and> listening (resume eng k out st) = listening st
   \<and> netlog (resume eng k out st) = netlog st"
  by (simp add: resume_def Let_def catch_block_def split: prod.splits sum.splits)

lemma processSearchResults_disabled:
  "\<not> enabled (settings st) \<Longrightarrow> processSearchResults eng st = st"
  by (simp add: processSearchResults_def)

subsection \<open>The continuation of a request\<close>

lemma analyzeUrlExtension_success:
  assumes "truthy (get_prop (analyzeUrlExtension out) ''success'')"
  shows "\<exists>status body. out = Response status (Inr body) \<and> 200 \<le> status \<and> status \<le> 299
           \<and> analyzeUrlExtension out = body"
  using assms
  by (auto simp: analyzeUrlExtension_def failure_def split: fetch_outcome.splits sum.splits if_splits)

lemma resume_cache:
  assumes "cache (resume eng k out st) x = Some v" and "cache st x \<noteq> Some v"
  shows "cacheResults (settings st) \<and> k < length (inflight st) \<and> snd (inflight st ! k) = x
     \<and> (\<exists>status body. out = Response status (Inr body) \<and> 200 \<le> status \<and> status \<le> 299
          \<and> truthy (get_prop body ''success'') \<and> get_prop body ''data'' = v \<and> truthy v)"
proof -
  have k: "k < length (inflight st)"
    using assms by (auto simp: resume_def split: if_splits)
  obtain i u where iu: "inflight st ! k = (i, u)" by (cases "inflight st ! k")
  let ?an = "analyzeUrlExtension out"
  have ok: "truthy ?an \<and> truthy (get_prop ?an ''success'') \<and> truthy (get_prop ?an ''data'')"
    using assms k iu by (auto simp: resume_def Let_def split: if_splits)
  have cr: "cacheResults (settings st)"
    using assms k iu ok
    by (auto simp: resume_def Let_def catch_block_def split: if_splits sum.splits)
  have "((cache st)(u \<mapsto> get_prop ?an ''data'')) x = Some v"
    using assms k iu ok cr
    by (auto simp: resume_def Let_def catch_block_def split: if_splits sum.splits)
  with assms(2) have xv: "x = u \<and> v = get_prop ?an ''data''"
    by (auto split: if_splits)
  from ok obtain status body where b: "out = Response status (Inr body)" "200 \<le> status"
      "status \<le> 299" "?an = body"
    using analyzeUrlExtension_success by blast
  show ?thesis using k iu ok cr xv b by auto
qed

lemma resume_success:
  assumes "k < length (inflight st)" and "inflight st ! k = (i, u)"
    and "200 \<le> status" and "status \<le> 299"
    and "truthy (get_prop body ''success'')" and "truthy (get_prop body ''data'')"
    and "displayLabel eng i (get_prop body ''data'') u (page st) = Inr d"
  shows "page (resume eng k (Response status (Inr body)) st) = finally_block i d
       \<and> rejected (resume eng k (Response status (Inr body)) st) = rejected st"
proof -
  have an: "analyzeUrlExtension (Response status (Inr body)) = body"
    using assms(3,4) by (simp add: analyzeUrlExtension_def)
  have tb: "truthy body" using assms(5) by (cases body) auto
  show ?thesis using assms an tb by (simp add: resume_def Let_def)
qed

lemma resume_page_cases:
  assumes "k < length (inflight st)" and "inflight st ! k = (i, u)"
  shows "page (resume eng k out st) = finally_block i (page st)
       \<or> (\<exists>l. page (resume eng k out st)
              = finally_block i (insertLabel i (LabelDiv l) (page st)))"
  using assms
  by (auto simp: resume_def Let_def catch_block_def displayLabel_def displayErrorLabel_def
      split: sum.splits if_splits)

lemma resume_cleans_up:
  assumes "k < length (inflight st)" and "inflight st ! k = (i, u)"
    and "i < length (results (page st))"
  shows "mark (results (page (resume eng k out st)) ! i) = Some ''false''
       \<and> loading (results (page (resume eng k out st)) ! i)
           = loading (results (page st) ! i) - 1"
  using resume_page_cases [OF assms(1,2), of eng out] assms(3)
  by (auto simp: finally_block_nth insertLabel_label_nth)

lemma processSearchResult_cache_miss:
  assumes "i < length (results (page st))"
    and "link (results (page st) ! i) = Some u"
    and "title_of (results (page st) ! i) = Some t"
    and "cache st u = None"
  shows "netlog (processSearchResult eng i st) = netlog st @ [(u, t)]
       \<and> inflight (processSearchResult eng i st) = inflight st @ [(i, u)]"
  using assms by (simp add: processSearchResult_def Let_def)

lemma processSearchResult_cleans_up:
  assumes "i < length (results (page st))"
    and "inflight (processSearchResult eng i st) = inflight st"
  shows "mark (results (page (processSearchResult eng i st)) ! i) = Some ''false''"
  using assms
  by (auto simp: processSearchResult_def Let_def catch_block_def finally_block_nth
      length_results_displayLabel split: option.splits sum.splits)

subsection \<open>Runs of a disabled extension\<close>

lemma all_labels_Nil_iff:
  "all_labels d = [] \<longleftrightarrow> (\<forall>r \<in> set (results d). labels r = []) \<and> stray_labels d = []"
  by (auto simp: all_labels_def)

lemma step_stays_disabled:
  assumes "\<not> enabled (settings st)" and "\<not> re_enables e"
  shows "\<not> enabled (settings (step eng e st))"
proof (cases e)
  case (Message m)
  with assms show ?thesis
    by (cases m) (auto simp: step_def handleMessage_def Let_def waitForSearchResults_def)
next
  case TimerFires
  with assms show ?thesis by (simp add: step_def processSearchResults_frame)
next
  case Mutation
  with assms show ?thesis by (simp add: step_def)
next
  case (Settled k out)
  with assms show ?thesis by (simp add: step_def resume_frame)
next
  case (RetryClick ref)
  with assms show ?thesis by (simp add: step_def retryClick_frame)
qed

lemma run_stays_disabled:
  assumes "\<forall>e \<in> set evs. \<not> re_enables e" and "\<not> enabled (settings st)"
  shows "\<not> enabled (settings (run eng evs st))"
  using assms unfolding run_def
  by (induction evs arbitrary: st) (auto simp: step_stays_disabled)

lemma retryClick_no_labels:
  "all_labels (page st) = [] \<Longrightarrow> retryClick eng ref st = st"
  by (cases ref) (auto simp: retryClick_def Let_def all_labels_Nil_iff)

lemma step_stays_quiet:
  assumes "quiet n st" and "\<not> re_enables e"
  shows "quiet n (step eng e st)"
proof (cases e)
  case (Message m)
  with assms show ?thesis
    by (cases m) (auto simp: quiet_def step_def handleMessage_def Let_def waitForSearchResults_def)
next
  case TimerFires
  with assms show ?thesis by (simp add: quiet_def step_def processSearchResults_disabled)
next
  case Mutation
  with assms show ?thesis by (simp add: quiet_def step_def)
next
  case (Settled k out)
  with assms show ?thesis by (simp add: quiet_def step_def resume_def)
next
  case (RetryClick ref)
  with assms show ?thesis by (simp add: quiet_def step_def retryClick_no_labels)
qed

lemma run_stays_quiet:
  assumes "\<forall>e \<in> set evs. \<not> re_enables e" and "quiet n st"
  shows "quiet n (run eng evs st)"
  using assms unfolding run_def
  by (induction evs arbitrary: st) (auto simp: step_stays_quiet)

subsection \<open>The state of the scenario after its first scan\<close>

lemma example_state_eq:
  "example_state =
     \<lparr>settings = \<lparr>enabled = True, autoAnalyze = True, cacheResults = True\<rparr>,
      cache = Map.empty, page = example_page, netlog = [], inflight = [], timers = 1,
      rejected = 0, listening = True\<rparr>"
  by (simp add: example_state_def init_def loadSettings_def default_storage_def
      waitForSearchResults_def)

lemma requested_state_eq:
  "requested_state =
     example_state\<lparr>timers := 0,
       page := \<lparr>results = [example_result\<lparr>mark := Some ''true'', loading := 1\<rparr>],
                stray_labels = [], stray_loading = 0\<rparr>,
       netlog := [(''http://example.com/a'', ''Example'')],
       inflight := [(0, ''http://example.com/a'')]\<rparr>"
  by (simp add: requested_state_def step_def example_state_eq processSearchResults_def
      example_page_def example_result_def shouldProcessResult_def processSearchResult_def
      set_mark_def title_of_def addLoadingIndicator_def insertLabel_def put_inside_def
      add_widget_def Let_def)

lemma cached_state_eq:
  "cached_state =
     \<lparr>settings = \<lparr>enabled = True, autoAnalyze = True, cacheResults = True\<rparr>,
      cache = [''http://example.com/a'' \<mapsto> example_data], page = example_page, netlog = [],
      inflight = [], timers = 1, rejected = 0, listening = True\<rparr>"
  by (simp add: cached_state_def example_state_eq)

lemma example_data_props:
  "get_prop example_data ''label'' = JStr ''Real''"
  "get_prop example_data ''confidence'' = JNum (Finite (874 / 10))"
  "get_prop example_data ''summary'' = JStr ''ok''"
  "get_prop example_data ''model'' = JStr ''X''"
  "plain example_data"
  by (simp_all add: example_data_def plain_def)

lemma displayLabel_example_data:
  "displayLabel eng i example_data u d
   = Inr (insertLabel i
       (LabelDiv (Verdict True (Finite 87) ''ok'' ''X'' example_data u)) d)"
  using displayLabel_plain [of example_data "''Real''" eng i u d]
  by (simp add: example_data_props lower_char_def)

lemma shouting_data_props:
  "get_prop shouting_data ''label'' = JStr ''TRUSTworthy''"
  "get_prop shouting_data ''confidence'' = JNum (Finite (5 / 2))"
  "get_prop shouting_data ''summary'' = JUndefined"
  "get_prop shouting_data ''model'' = JUndefined"
  "plain shouting_data"
  by (simp_all add: shouting_data_def plain_def)

lemma banana_body_props:
  "truthy (get_prop banana_body ''success'')"
  "get_prop banana_body ''data'' = JObj [(''label'', JStr ''banana'')]"
  "plain (JObj [(''label'', JStr ''banana'')])"
  by (simp_all add: banana_body_def plain_def)

lemma labelless_body_props:
  "truthy (get_prop labelless_body ''success'')"
  "get_prop labelless_body ''data'' = JObj []"
  by (simp_all add: labelless_body_def)

lemma example_body_props:
  "truthy example_body"
  "truthy (get_prop example_body ''success'')"
  "get_prop example_body ''data'' = example_data"
  "truthy example_data"
  by (simp_all add: example_body_def example_data_def)

lemma requested_state_props:
  "inflight requested_state = [(0, ''http://example.com/a'')]"
  "netlog requested_state = [(''http://example.com/a'', ''Example'')]"
  "cache requested_state = Map.empty"
  "rejected requested_state = 0"
  "settings requested_state = \<lparr>enabled = True, autoAnalyze = True, cacheResults = True\<rparr>"
  "page requested_state
     = \<lparr>results = [example_result\<lparr>mark := Some ''true'', loading := 1\<rparr>],
        stray_labels = [], stray_loading = 0\<rparr>"
  by (simp_all add: requested_state_eq example_state_eq)

lemma flat_state_eq:
  "flat_state =
     \<lparr>settings = \<lparr>enabled = True, autoAnalyze = True, cacheResults = True\<rparr>,
      cache = Map.empty,
      page = \<lparr>results = [flat_result], stray_labels = [], stray_loading = 0\<rparr>,
      netlog = [], inflight = [], timers = 1, rejected = 0, listening = True\<rparr>"
  by (simp add: flat_state_def init_def loadSettings_def default_storage_def
      waitForSearchResults_def)

section \<open>The claims\<close>

subsection \<open>C1: a cached URL is served without a request\<close>

text \<open>
  C1. When the cache holds the URL of a result that has a link and a title,
  \<open>processSearchResult\<close> sends no request and suspends no call (the request log and the
  list of suspended calls are unchanged), leaves the cache as it is, and renders the
  cached value with \<open>displayLabel\<close> before the \<open>finally\<close> block runs; plain cached data
  with a non-empty string label appears on the page as a verdict label carrying that
  value and the URL.
\<close>

theorem processSearchResult_cache_hit:
  assumes "i < length (results (page st))"
    and "link (results (page st) ! i) = Some u"
    and "title_of (results (page st) ! i) = Some t"
    and "cache st u = Some a"
  shows "netlog (processSearchResult eng i st) = netlog st
       \<and> inflight (processSearchResult eng i st) = inflight st
       \<and> cache (processSearchResult eng i st) = cache st
       \<and> (\<forall>d. displayLabel eng i a u (set_mark i (Some ''true'') (page st)) = Inr d
              \<longrightarrow> page (processSearchResult eng i st) = finally_block i d)
       \<and> (\<forall>s. get_prop a ''label'' = JStr s \<and> s \<noteq> [] \<and> plain a
              \<longrightarrow> (\<exists>tr c sm md. Verdict tr c sm md a u
                     \<in> set (all_labels (page (processSearchResult eng i st)))))"
proof -
  let ?d1 = "set_mark i (Some ''true'') (page st)"
  have len: "i < length (results ?d1)" using assms(1) by simp
  have rest: "netlog (processSearchResult eng i st) = netlog st
       \<and> inflight (processSearchResult eng i st) = inflight st
       \<and> cache (processSearchResult eng i st) = cache st
       \<and> (\<forall>d. displayLabel eng i a u ?d1 = Inr d
              \<longrightarrow> page (processSearchResult eng i st) = finally_block i d)"
    using assms by (simp add: processSearchResult_def Let_def catch_block_def split: sum.splits)
  have str: "\<exists>tr c sm md. Verdict tr c sm md a u
      \<in> set (all_labels (page (processSearchResult eng i st)))"
    if s: "get_prop a ''label'' = JStr s \<and> s \<noteq> [] \<and> plain a" for s
  proof -
    from s displayLabel_plain [of a s eng i u ?d1]
    obtain tr c sm md where
      l: "displayLabel eng i a u ?d1 = Inr (insertLabel i (LabelDiv (Verdict tr c sm md a u)) ?d1)"
      by blast
    with rest have "page (processSearchResult eng i st)
        = finally_block i (insertLabel i (LabelDiv (Verdict tr c sm md a u)) ?d1)"
      by blast
    then have "Verdict tr c sm md a u \<in> set (all_labels (page (processSearchResult eng i st)))"
      using len by (simp add: all_labels_insertLabel_label)
    then show ?thesis by blast
  qed
  from rest str show ?thesis by blast
qed

theorem processSearchResult_cache_hit_witness:
  "0 < length (results (page cached_state))
   \<and> link (results (page cached_state) ! 0) = Some ''http://example.com/a''
   \<and> title_of (results (page cached_state) ! 0) = Some ''Example''
   \<and> cache cached_state ''http://example.com/a'' = Some example_data
   \<and> netlog (processSearchResult stub_engine 0 cached_state) = []
   \<and> inflight (processSearchResult stub_engine 0 cached_state) = []
   \<and> page (processSearchResult stub_engine 0 cached_state)
       = \<lparr>results = [example_result\<lparr>mark := Some ''false'',
            labels := [Verdict True (Finite 87) ''ok'' ''X'' example_data
                         ''http://example.com/a'']\<rparr>],
          stray_labels = [], stray_loading = 0\<rparr>"
  using processSearchResult_cache_hit
    [of 0 cached_state "''http://example.com/a''" "''Example''" example_data stub_engine]
  by (simp add: cached_state_eq example_page_def example_result_def title_of_def
      displayLabel_example_data set_mark_def insertLabel_def put_inside_def add_widget_def
      finally_block_def removeLoadingIndicator_def Let_def)

subsection \<open>C2: normalisation of the response\<close>

text \<open>
  C2. For plain data whose label is a non-empty string, \<open>displayLabel\<close> renders a
  verdict that is trustworthy exactly when the label, lowered, is \<open>trustworthy\<close> or
  \<open>real\<close>; its confidence is an integer within one half of a finite input confidence
  and 0 when the confidence is falsy; its summary and model are the response's when
  these are non-empty strings, and the placeholders \<open>No summary available\<close> and
  \<open>BART/LLaMA\<close> when they are missing or falsy. For the response of the scenario (label
  \<open>Real\<close>, confidence 87.4 or any number within a tenth of it, such as the double
  nearest to it, summary \<open>ok\<close>, model \<open>X\<close>) the verdict is trustworthy, 87, \<open>ok\<close>, \<open>X\<close>.
\<close>

theorem displayLabel_normalizes:
  "(\<forall>lab. get_prop a ''label'' = JStr lab \<and> lab \<noteq> [] \<and> plain a \<longrightarrow>
      (\<exists>l. displayLabel eng i a u d = Inr (insertLabel i (LabelDiv l) d)
         \<and> is_trustworthy l
             = (map lower_char lab = ''trustworthy'' \<or> map lower_char lab = ''real'')
         \<and> (\<forall>q. get_prop a ''confidence'' = JNum (Finite q) \<longrightarrow>
               (\<exists>n::int. confidence l = Finite (of_int n) \<and> \<bar>of_int n - q\<bar> \<le> 1 / 2))
         \<and> (\<not> truthy (get_prop a ''confidence'') \<longrightarrow> confidence l = Finite 0)
         \<and> (\<forall>s. get_prop a ''summary'' = JStr s \<and> s \<noteq> [] \<longrightarrow> summary l = s)
         \<and> (\<not> truthy (get_prop a ''summary'') \<longrightarrow> summary l = ''No summary available'')
         \<and> (\<forall>s. get_prop a ''model'' = JStr s \<and> s \<noteq> [] \<longrightarrow> model l = s)
         \<and> (\<not> truthy (get_prop a ''model'') \<longrightarrow> model l = ''BART/LLaMA'')
         \<and> analysis l = a \<and> url l = u))
   \<and> (\<forall>q. \<bar>q - 874 / 10\<bar> < 1 / 10 \<longrightarrow>
        displayLabel eng i
          (JObj [(''label'', JStr ''Real''), (''confidence'', JNum (Finite q)),
                 (''summary'', JStr ''ok''), (''model'', JStr ''X'')]) u d
        = Inr (insertLabel i
            (LabelDiv (Verdict True (Finite 87) ''ok'' ''X''
               (JObj [(''label'', JStr ''Real''), (''confidence'', JNum (Finite q)),
                      (''summary'', JStr ''ok''), (''model'', JStr ''X'')]) u)) d))"
proof (intro conjI allI impI)
  fix lab
  assume lab: "get_prop a ''label'' = JStr lab \<and> lab \<noteq> [] \<and> plain a"
  define l where "l = Verdict
     (map lower_char lab = ''trustworthy'' \<or> map lower_char lab = ''real'')
     (Math_round (plain_number (get_prop a ''confidence'')))
     (plain_text (get_prop a ''summary'') ''No summary available'')
     (plain_text (get_prop a ''model'') ''BART/LLaMA'') a u"
  have 1: "displayLabel eng i a u d = Inr (insertLabel i (LabelDiv l) d)"
    using lab displayLabel_plain [of a lab eng i u d] by (simp add: l_def)
  have 2: "\<exists>n::int. confidence l = Finite (of_int n) \<and> \<bar>of_int n - q\<bar> \<le> 1 / 2"
    if "get_prop a ''confidence'' = JNum (Finite q)" for q
  proof (cases "q = 0")
    case True
    with that have "confidence l = Finite (of_int 0)" by (simp add: l_def)
    with True show ?thesis by (intro exI [of _ 0]) simp
  next
    case False
    with that have "confidence l = Finite (of_int \<lfloor>q + 1 / 2\<rfloor>)" by (simp add: l_def)
    with round_nearest [of q] show ?thesis by blast
  qed
  have 3: "\<not> truthy (get_prop a ''confidence'') \<Longrightarrow> confidence l = Finite 0"
    by (cases "get_prop a ''confidence''") (auto simp: l_def)
  have 4: "\<not> truthy (get_prop a ''summary'') \<Longrightarrow> summary l = ''No summary available''"
    by (cases "get_prop a ''summary''") (auto simp: l_def)
  have 5: "\<not> truthy (get_prop a ''model'') \<Longrightarrow> model l = ''BART/LLaMA''"
    by (cases "get_prop a ''model''") (auto simp: l_def)
  have 6: "get_prop a ''summary'' = JStr s \<and> s \<noteq> [] \<Longrightarrow> summary l = s" for s
    by (simp add: l_def)
  have 7: "get_prop a ''model'' = JStr s \<and> s \<noteq> [] \<Longrightarrow> model l = s" for s
    by (simp add: l_def)
  have 8: "is_trustworthy l
      = (map lower_char lab = ''trustworthy'' \<or> map lower_char lab = ''real'')"
    "analysis l = a" "url l = u"
    by (simp_all add: l_def)
  show "\<exists>l. displayLabel eng i a u d = Inr (insertLabel i (LabelDiv l) d)
         \<and> is_trustworthy l
             = (map lower_char lab = ''trustworthy'' \<or> map lower_char lab = ''real'')
         \<and> (\<forall>q. get_prop a ''confidence'' = JNum (Finite q) \<longrightarrow>
               (\<exists>n::int. confidence l = Finite (of_int n) \<and> \<bar>of_int n - q\<bar> \<le> 1 / 2))
         \<and> (\<not> truthy (get_prop a ''confidence'') \<longrightarrow> confidence l = Finite 0)
         \<and> (\<forall>s. get_prop a ''summary'' = JStr s \<and> s \<noteq> [] \<longrightarrow> summary l = s)
         \<and> (\<not> truthy (get_prop a ''summary'') \<longrightarrow> summary l = ''No summary available'')
         \<and> (\<forall>s. get_prop a ''model'' = JStr s \<and> s \<noteq> [] \<longrightarrow> model l = s)
         \<and> (\<not> truthy (get_prop a ''model'') \<longrightarrow> model l = ''BART/LLaMA'')
         \<and> analysis l = a \<and> url l = u"
    using 1 2 3 4 5 6 7 8 by (intro exI [of _ l]) blast
next
  fix q :: real
  assume q: "\<bar>q - 874 / 10\<bar> < 1 / 10"
  let ?a = "JObj [(''label'', JStr ''Real''), (''confidence'', JNum (Finite q)),
                 (''summary'', JStr ''ok''), (''model'', JStr ''X'')]"
  have b: "173 / 2 \<le> q" "q < 175 / 2" using q by linarith+
  have r: "\<lfloor>q + 1 / 2\<rfloor> = 87" using b by (simp add: floor_eq_iff)
  have nz: "q \<noteq> 0" using q by linarith
  have "plain ?a" by (simp add: plain_def)
  from displayLabel_plain [of ?a "''Real''" eng i u d, OF _ _ this]
  show "displayLabel eng i ?a u d
        = Inr (insertLabel i (LabelDiv (Verdict True (Finite 87) ''ok'' ''X'' ?a u)) d)"
    using r nz by (simp add: lower_char_def)
qed

theorem displayLabel_normalizes_witness:
  "get_prop shouting_data ''label'' = JStr ''TRUSTworthy'' \<and> ''TRUSTworthy'' \<noteq> []
   \<and> plain shouting_data
   \<and> displayLabel stub_engine 0 shouting_data ''http://example.com/a'' example_page
     = Inr (insertLabel 0
         (LabelDiv (Verdict True (Finite 3) ''No summary available'' ''BART/LLaMA''
            shouting_data ''http://example.com/a'')) example_page)"
  using displayLabel_normalizes
    [where a = shouting_data and eng = stub_engine and i = 0
       and u = "''http://example.com/a''" and d = example_page]
    displayLabel_plain [of shouting_data "''TRUSTworthy''" stub_engine 0
        "''http://example.com/a''" example_page]
  by (simp add: shouting_data_props lower_char_def)

subsection \<open>C3: the confidence is rounded, not clamped\<close>

text \<open>
  C3 as stated fails: a confidence of 150 is rendered as 150.
\<close>

theorem confidence_150_counterexample:
  "displayLabel stub_engine 0 overconfident_data ''http://example.com/a'' example_page
   = Inr (insertLabel 0
       (LabelDiv (Verdict True (Finite 150) ''No summary available'' ''BART/LLaMA''
          overconfident_data ''http://example.com/a'')) example_page)"
  using displayLabel_plain [of overconfident_data "''Real''" stub_engine 0
        "''http://example.com/a''" example_page]
  by (simp add: overconfident_data_def plain_def lower_char_def)

text \<open>
  C3, amended. For plain data with a non-empty string label and a finite confidence
  \<open>q\<close>, the rendered confidence is the integer \<open>\<lfloor>q + 1/2\<rfloor>\<close>; it lies in the interval
  from 0 to 100 exactly when \<open>-1/2 \<le> q < 100.5\<close>. Nothing is clamped.
\<close>

theorem confidence_rounded_not_clamped:
  assumes "get_prop a ''label'' = JStr lab" and "lab \<noteq> []" and "plain a"
    and "get_prop a ''confidence'' = JNum (Finite q)"
  shows "\<exists>l. displayLabel eng i a u d = Inr (insertLabel i (LabelDiv l) d)
           \<and> confidence l = Finite (of_int \<lfloor>q + 1 / 2\<rfloor>)
           \<and> ((0 \<le> \<lfloor>q + 1 / 2\<rfloor> \<and> \<lfloor>q + 1 / 2\<rfloor> \<le> 100) = (- 1 / 2 \<le> q \<and> q < 201 / 2))"
proof -
  define l where "l = Verdict
     (map lower_char lab = ''trustworthy'' \<or> map lower_char lab = ''real'')
     (Math_round (plain_number (get_prop a ''confidence'')))
     (plain_text (get_prop a ''summary'') ''No summary available'')
     (plain_text (get_prop a ''model'') ''BART/LLaMA'') a u"
  have 1: "displayLabel eng i a u d = Inr (insertLabel i (LabelDiv l) d)"
    using assms(1-3) displayLabel_plain [of a lab eng i u d] by (simp add: l_def)
  have 2: "confidence l = Finite (of_int \<lfloor>q + 1 / 2\<rfloor>)"
    using assms(4) by (simp add: l_def)
  have 3: "(0 \<le> \<lfloor>q + 1 / 2\<rfloor> \<and> \<lfloor>q + 1 / 2\<rfloor> \<le> 100) = (- 1 / 2 \<le> q \<and> q < 201 / 2)"
    by (auto simp: le_floor_iff floor_le_iff)
  from 1 2 3 show ?thesis by blast
qed

theorem confidence_rounded_not_clamped_witness:
  "get_prop example_data ''label'' = JStr ''Real'' \<and> ''Real'' \<noteq> [] \<and> plain example_data
   \<and> get_prop example_data ''confidence'' = JNum (Finite (874 / 10))
   \<and> displayLabel stub_engine 0 example_data ''http://example.com/a'' example_page
       = Inr (insertLabel 0
         (LabelDiv (Verdict True (Finite 87) ''ok'' ''X''
            example_data ''http://example.com/a'')) example_page)"
  using confidence_rounded_not_clamped
    [of example_data "''Real''" "874 / 10" stub_engine 0 "''http://example.com/a''" example_page]
  by (simp add: example_data_props displayLabel_example_data)

subsection \<open>C4: responses without a usable label\<close>

text \<open>
  C4 as stated fails: a label the program does not know, such as \<open>banana\<close>, is not a
  failure; it is rendered as an untrustworthy verdict.
\<close>

theorem unrecognized_label_counterexample:
  "page (resume stub_engine 0 (Response 200 (Inr banana_body)) requested_state)
   = \<lparr>results = [example_result\<lparr>mark := Some ''false'',
         labels := [Verdict False (Finite 0) ''No summary available'' ''BART/LLaMA''
                      (JObj [(''label'', JStr ''banana'')]) ''http://example.com/a'']\<rparr>],
      stray_labels = [], stray_loading = 0\<rparr>"
  using resume_success [of 0 requested_state 0 "''http://example.com/a''" 200 banana_body
      stub_engine]
    displayLabel_plain [of "JObj [(''label'', JStr ''banana'')]" "''banana''" stub_engine 0
      "''http://example.com/a''" "page requested_state"]
  by (simp add: banana_body_props requested_state_props lower_char_def insertLabel_def
      put_inside_def add_widget_def example_result_def finally_block_def set_mark_def
      removeLoadingIndicator_def Let_def)

text \<open>
  C4, amended. When a request settles with a successful response whose data is truthy:
  if the data has no label, or a falsy one, exactly the error label with its retry button
  is added to the page and no promise is rejected; if the data is plain and its label is
  any non-empty string, exactly one verdict label is added, trustworthy when the lowered
  label is \<open>trustworthy\<close> or \<open>real\<close> and untrustworthy otherwise, and no promise is
  rejected.
\<close>

theorem falsy_label_yields_error_label:
  assumes "k < length (inflight st)" and "inflight st ! k = (i, u)"
    and "i < length (results (page st))"
    and "200 \<le> status" and "status \<le> 299"
    and "truthy (get_prop body ''success'')" and "get_prop body ''data'' = data"
    and "truthy data"
  shows "(\<not> truthy (get_prop data ''label'') \<longrightarrow>
            set (all_labels (page (resume eng k (Response status (Inr body)) st)))
              = insert (ErrorLabel u i) (set (all_labels (page st)))
            \<and> rejected (resume eng k (Response status (Inr body)) st) = rejected st)
       \<and> (\<forall>s. get_prop data ''label'' = JStr s \<and> s \<noteq> [] \<and> plain data \<longrightarrow>
            (\<exists>c sm md.
               set (all_labels (page (resume eng k (Response status (Inr body)) st)))
                 = insert (Verdict (map lower_char s = ''trustworthy'' \<or> map lower_char s = ''real'')
                             c sm md data u) (set (all_labels (page st))))
            \<and> rejected (resume eng k (Response status (Inr body)) st) = rejected st)"
proof (intro conjI allI impI)
  let ?st' = "resume eng k (Response status (Inr body)) st"
  have td: "truthy (get_prop body ''data'')" using assms(7,8) by simp
  note rs = resume_success [OF assms(1,2,4,5,6) td]
  {
    assume "\<not> truthy (get_prop data ''label'')"
    then have "displayLabel eng i (get_prop body ''data'') u (page st)
        = Inr (displayErrorLabel i u (page st))"
      using assms(7) by (simp add: displayLabel_def)
    from rs [OF this]
    have pg: "page ?st' = finally_block i (displayErrorLabel i u (page st))"
      and rj: "rejected ?st' = rejected st" by simp_all
    show "set (all_labels (page ?st')) = insert (ErrorLabel u i) (set (all_labels (page st)))"
      using pg assms(3) by (simp add: displayErrorLabel_def all_labels_insertLabel_label)
    show "rejected ?st' = rejected st" by (rule rj)
  }
  fix s
  assume s: "get_prop data ''label'' = JStr s \<and> s \<noteq> [] \<and> plain data"
  define l where "l = Verdict (map lower_char s = ''trustworthy'' \<or> map lower_char s = ''real'')
     (Math_round (plain_number (get_prop data ''confidence'')))
     (plain_text (get_prop data ''summary'') ''No summary available'')
     (plain_text (get_prop data ''model'') ''BART/LLaMA'') data u"
  have "displayLabel eng i (get_prop body ''data'') u (page st)
        = Inr (insertLabel i (LabelDiv l) (page st))"
    using s assms(7) displayLabel_plain [of data s eng i u "page st"] by (simp add: l_def)
  from rs [OF this]
  have pg: "page ?st' = finally_block i (insertLabel i (LabelDiv l) (page st))"
    and rj: "rejected ?st' = rejected st" by simp_all
  have "set (all_labels (page ?st')) = insert l (set (all_labels (page st)))"
    using pg assms(3) by (simp add: all_labels_insertLabel_label)
  then show "\<exists>c sm md. set (all_labels (page ?st'))
      = insert (Verdict (map lower_char s = ''trustworthy'' \<or> map lower_char s = ''real'')
                  c sm md data u) (set (all_labels (page st)))"
    unfolding l_def by blast
  show "rejected ?st' = rejected st" by (rule rj)
qed

theorem falsy_label_yields_error_label_witness:
  "0 < length (inflight requested_state)
   \<and> inflight requested_state ! 0 = (0, ''http://example.com/a'')
   \<and> 0 < length (results (page requested_state))
   \<and> truthy (get_prop labelless_body ''success'')
   \<and> get_prop labelless_body ''data'' = JObj [] \<and> truthy (JObj [])
   \<and> \<not> truthy (get_prop (JObj []) ''label'')
   \<and> set (all_labels (page (resume stub_engine 0 (Response 200 (Inr labelless_body))
        requested_state))) = {ErrorLabel ''http://example.com/a'' 0}
   \<and> rejected (resume stub_engine 0 (Response 200 (Inr labelless_body)) requested_state) = 0"
  using falsy_label_yields_error_label
    [of 0 requested_state 0 "''http://example.com/a''" 200 labelless_body "JObj []" stub_engine]
  by (simp add: requested_state_props labelless_body_props all_labels_def example_result_def)

text \<open>
  A truthy label that is not a string is outside the amended claim: lowering it throws,
  the \<open>catch\<close> block throws in turn, nothing is displayed and the promise is rejected,
  after the data has been cached.
\<close>

lemma numeric_label_rejects:
  "page (resume stub_engine 0 (Response 200 (Inr numeric_label_body)) requested_state)
     = \<lparr>results = [example_result\<lparr>mark := Some ''false''\<rparr>], stray_labels = [],
        stray_loading = 0\<rparr>
   \<and> rejected (resume stub_engine 0 (Response 200 (Inr numeric_label_body)) requested_state) = 1
   \<and> cache (resume stub_engine 0 (Response 200 (Inr numeric_label_body)) requested_state)
       ''http://example.com/a'' = Some (JObj [(''label'', JNum (Finite 5))])"
  by (simp add: resume_def requested_state_props analyzeUrlExtension_def numeric_label_body_def
      displayLabel_def toLowerCase_def catch_block_def finally_block_def set_mark_def
      removeLoadingIndicator_def example_result_def Let_def)

subsection \<open>C5: when the cache is written\<close>

text \<open>
  C5 as stated fails: a successful response whose data has no label is rendered as a
  failure and is written to the cache all the same.
\<close>

theorem labelless_response_cached_counterexample:
  "cache (step stub_engine (Settled 0 (Response 200 (Inr labelless_body))) requested_state)
     ''http://example.com/a'' = Some (JObj [])
   \<and> cache requested_state ''http://example.com/a'' = None
   \<and> all_labels (page (step stub_engine (Settled 0 (Response 200 (Inr labelless_body)))
        requested_state)) = [ErrorLabel ''http://example.com/a'' 0]"
  by (simp add: step_def resume_def requested_state_props analyzeUrlExtension_def
      labelless_body_def displayLabel_def displayErrorLabel_def insertLabel_def put_inside_def
      add_widget_def example_result_def title_of_def finally_block_def set_mark_def
      removeLoadingIndicator_def all_labels_def Let_def)

text \<open>
  C5, amended. Whatever happens to the extension, an entry appears in the cache, or
  changes, only when a request settles with a status from 200 to 299 and a body that
  parses, whose \<open>success\<close> is truthy and whose \<open>data\<close> is truthy, and only when the
  \<open>cacheResults\<close> setting is true; the entry is that data under the URL of the
  request. The label of the data is not examined before the write.
\<close>

theorem cache_written_only_on_success:
  assumes "cache (step eng e st) x = Some v" and "cache st x \<noteq> Some v"
  shows "cacheResults (settings st)
     \<and> (\<exists>k status body. e = Settled k (Response status (Inr body))
          \<and> k < length (inflight st) \<and> snd (inflight st ! k) = x
          \<and> 200 \<le> status \<and> status \<le> 299
          \<and> truthy (get_prop body ''success'') \<and> get_prop body ''data'' = v \<and> truthy v)"
proof (cases e)
  case (Message m)
  with assms show ?thesis
    by (cases m) (auto simp: step_def handleMessage_def Let_def waitForSearchResults_def
        split: if_splits)
next
  case TimerFires
  with assms show ?thesis
    by (auto simp: step_def processSearchResults_frame split: if_splits)
next
  case Mutation
  with assms show ?thesis
    by (auto simp: step_def waitForSearchResults_def split: if_splits)
next
  case (Settled k out)
  with assms have "cache (resume eng k out st) x = Some v" by (simp add: step_def)
  from resume_cache [OF this assms(2)] Settled show ?thesis by blast
next
  case (RetryClick ref)
  with assms show ?thesis by (simp add: step_def retryClick_frame)
qed

theorem cache_written_only_on_success_witness:
  "cache (step stub_engine (Settled 0 (Response 200 (Inr example_body))) requested_state)
     ''http://example.com/a'' = Some example_data
   \<and> cache requested_state ''http://example.com/a'' \<noteq> Some example_data
   \<and> cacheResults (settings requested_state)"
  using cache_written_only_on_success
    [of stub_engine "Settled 0 (Response 200 (Inr example_body))" requested_state
        "''http://example.com/a''" example_data]
  by (simp add: step_def resume_def requested_state_props analyzeUrlExtension_def
      example_body_props displayLabel_example_data Let_def)

subsection \<open>C6: the eligibility predicate\<close>

text \<open>
  C6 as stated fails: a result with a link and without a title is eligible.
\<close>

theorem untitled_result_counterexample:
  "title_of untitled_result = None \<and> shouldProcessResult untitled_result"
  by (simp add: untitled_result_def title_of_def shouldProcessResult_def)

text \<open>
  C6, amended. \<open>shouldProcessResult\<close> is a function of the result alone (it changes
  nothing) and is true exactly when the result contains no label, its processing mark
  is not \<open>true\<close>, it has a link, and the URL of the link neither contains \<open>google.com\<close>
  (which covers \<open>maps.google.com\<close> and \<open>images.google.com\<close>) nor starts with
  \<open>javascript:\<close>. The title is not examined: the answer is the same whatever the
  \<open>h3\<close> and the heading of the result are.
\<close>

theorem shouldProcessResult_iff:
  "(shouldProcessResult r \<longleftrightarrow>
      labels r = [] \<and> mark r \<noteq> Some ''true''
      \<and> (\<exists>u. link r = Some u \<and> \<not> includes_str u ''google.com''
              \<and> \<not> startsWith u ''javascript:''))
   \<and> shouldProcessResult (r\<lparr>h3 := a, heading := b\<rparr>) = shouldProcessResult r"
proof -
  have "includes_str u ''maps.google.com'' \<Longrightarrow> includes_str u ''google.com''" for u
    using includes_str_suffix [of u "''maps.''" "''google.com''"] by simp
  moreover have "includes_str u ''images.google.com'' \<Longrightarrow> includes_str u ''google.com''" for u
    using includes_str_suffix [of u "''images.''" "''google.com''"] by simp
  ultimately show ?thesis
    by (auto simp: shouldProcessResult_def split: option.splits)
qed

theorem shouldProcessResult_iff_witness:
  "shouldProcessResult example_result
   \<and> \<not> shouldProcessResult (example_result\<lparr>link := Some ''https://www.google.com/search?q=a''\<rparr>)
   \<and> \<not> shouldProcessResult (example_result\<lparr>mark := Some ''true''\<rparr>)"
  using shouldProcessResult_iff [of example_result "Some ''Example''" None]
    shouldProcessResult_iff
      [of "example_result\<lparr>link := Some ''https://www.google.com/search?q=a''\<rparr>" None None]
    shouldProcessResult_iff [of "example_result\<lparr>mark := Some ''true''\<rparr>" None None]
  by (simp add: example_result_def)

subsection \<open>C7: cleanup on every exit path\<close>

text \<open>
  The \<open>finally\<close> block runs on every path, and on every path it sets the processing
  mark of the result to \<open>false\<close> and removes one loading indicator from inside the
  result, if there is one (\<open>resume_cleans_up\<close> for a call that was suspended,
  \<open>processSearchResult_cleans_up\<close> for one that was not). It looks for the indicator
  inside the result only.
\<close>

text \<open>
  C7 fails on the code for a result whose title is a direct child and that has no
  snippet: \<open>insertLabel\<close> puts the loading indicator after the result, as its next
  sibling, and \<open>removeLoadingIndicator\<close> does not find it there. After the scan and the
  arrival of the response no call is suspended, the mark is \<open>false\<close>, and the loading
  indicator is still on the page.
\<close>

theorem loading_indicator_left_behind:
  "inflight (run stub_engine [TimerFires, Settled 0 (Response 200 (Inr example_body))] flat_state)
     = []
   \<and> page (run stub_engine [TimerFires, Settled 0 (Response 200 (Inr example_body))] flat_state)
     = \<lparr>results = [flat_result\<lparr>mark := Some ''false''\<rparr>],
        stray_labels = [Verdict True (Finite 87) ''ok'' ''X'' example_data
                          ''http://example.com/a''],
        stray_loading = 1\<rparr>"
  by (simp add: run_def step_def flat_state_eq processSearchResults_def flat_result_def
      shouldProcessResult_def processSearchResult_def set_mark_def title_of_def
      addLoadingIndicator_def insertLabel_def put_inside_def put_outside_def add_widget_def
      resume_def analyzeUrlExtension_def example_body_props displayLabel_example_data
      finally_block_def removeLoadingIndicator_def Let_def)

subsection \<open>C8: clearing the cache\<close>

text \<open>
  C8. Handling \<open>CLEAR_CACHE\<close> empties the cache, leaves no label and no loading
  indicator on the page and no processing mark on any result; for a result with a link
  and a title, whatever was cached before, the next \<open>processSearchResult\<close> sends one
  request for its URL and title, and the continuation of that request sends no other.
\<close>

theorem clear_cache_then_one_request:
  assumes "i < length (results (page st))"
    and "link (results (page st) ! i) = Some u"
    and "title_of (results (page st) ! i) = Some t"
  shows "cache (handleMessage CLEAR_CACHE st) = Map.empty
       \<and> all_labels (page (handleMessage CLEAR_CACHE st)) = []
       \<and> all_loading (page (handleMessage CLEAR_CACHE st)) = 0
       \<and> (\<forall>r \<in> set (results (page (handleMessage CLEAR_CACHE st))). mark r = None)
       \<and> netlog (processSearchResult eng i (handleMessage CLEAR_CACHE st))
           = netlog st @ [(u, t)]
       \<and> netlog (resume eng k out (processSearchResult eng i (handleMessage CLEAR_CACHE st)))
           = netlog st @ [(u, t)]"
proof -
  let ?st' = "handleMessage CLEAR_CACHE st"
  have c: "cache ?st' = Map.empty" and n: "netlog ?st' = netlog st"
    and p: "page ?st' = removeAllLabels (page st)"
    by (simp_all add: handleMessage_def Let_def waitForSearchResults_def)
  have m: "\<forall>r \<in> set (results (page ?st')). mark r = None"
    by (auto simp: p removeAllLabels_def)
  have i: "i < length (results (page ?st'))" using assms(1) by (simp add: p)
  have l: "link (results (page ?st') ! i) = Some u"
    using assms(1,2) by (simp add: p results_removeAllLabels_nth)
  have t: "title_of (results (page ?st') ! i) = Some t"
    using assms(1,3) by (simp add: p results_removeAllLabels_nth)
  have "cache ?st' u = None" by (simp add: c)
  from processSearchResult_cache_miss [OF i l t this]
  have one: "netlog (processSearchResult eng i ?st') = netlog st @ [(u, t)]"
    by (simp add: n)
  show ?thesis using c p m one by (simp add: resume_frame)
qed

theorem clear_cache_then_one_request_witness:
  "0 < length (results (page cached_state))
   \<and> link (results (page cached_state) ! 0) = Some ''http://example.com/a''
   \<and> title_of (results (page cached_state) ! 0) = Some ''Example''
   \<and> cache cached_state ''http://example.com/a'' = Some example_data
   \<and> netlog cached_state = []
   \<and> netlog (resume stub_engine 0 (Response 200 (Inr example_body))
        (processSearchResult stub_engine 0 (handleMessage CLEAR_CACHE cached_state)))
       = [(''http://example.com/a'', ''Example'')]"
  using clear_cache_then_one_request
    [of 0 cached_state "''http://example.com/a''" "''Example''" stub_engine 0
        "Response 200 (Inr example_body)"]
  by (simp add: cached_state_eq example_page_def example_result_def title_of_def)

subsection \<open>C9: a disabled extension\<close>

text \<open>
  C9 as stated fails: a request sent by a scan before the extension was disabled is
  still in flight when the update arrives, and its label is rendered when the response
  arrives, while the extension is disabled.
\<close>

theorem inflight_request_renders_while_disabled_counterexample:
  "\<not> enabled (settings (run stub_engine
        [TimerFires, Message (SETTINGS_UPDATED switched_off),
         Settled 0 (Response 200 (Inr example_body))] example_state))
   \<and> all_labels (page (run stub_engine [TimerFires, Message (SETTINGS_UPDATED switched_off)]
        example_state)) = []
   \<and> all_labels (page (run stub_engine
        [TimerFires, Message (SETTINGS_UPDATED switched_off),
         Settled 0 (Response 200 (Inr example_body))] example_state))
     = [Verdict True (Finite 87) ''ok'' ''X'' example_data ''http://example.com/a'']"
  by (simp add: run_def step_def example_state_eq processSearchResults_def example_page_def
      example_result_def shouldProcessResult_def processSearchResult_def set_mark_def
      title_of_def addLoadingIndicator_def insertLabel_def put_inside_def add_widget_def
      handleMessage_def switched_off_def removeAllLabels_def resume_def
      analyzeUrlExtension_def example_body_props displayLabel_example_data finally_block_def
      removeLoadingIndicator_def all_labels_def Let_def)

text \<open>
  C9, amended. A settings update with \<open>enabled\<close> false removes every label and loading
  indicator at once and schedules no scan. After it, through any events that do not
  re-enable the extension, the extension stays disabled and a scan changes nothing on
  the page and sends no request. If no request was in flight when the update arrived,
  no label is rendered and no request is sent until the extension is re-enabled.
\<close>

theorem disabled_scans_render_nothing:
  assumes "\<not> enabled s" and "\<forall>e \<in> set evs. \<not> re_enables e"
  shows "all_labels (page (handleMessage (SETTINGS_UPDATED s) st)) = []
       \<and> all_loading (page (handleMessage (SETTINGS_UPDATED s) st)) = 0
       \<and> timers (handleMessage (SETTINGS_UPDATED s) st) = timers st
       \<and> \<not> enabled (settings (run eng evs (handleMessage (SETTINGS_UPDATED s) st)))
       \<and> page (step eng TimerFires (run eng evs (handleMessage (SETTINGS_UPDATED s) st)))
           = page (run eng evs (handleMessage (SETTINGS_UPDATED s) st))
       \<and> netlog (step eng TimerFires (run eng evs (handleMessage (SETTINGS_UPDATED s) st)))
           = netlog (run eng evs (handleMessage (SETTINGS_UPDATED s) st))
       \<and> (inflight st = [] \<longrightarrow>
            all_labels (page (run eng evs (handleMessage (SETTINGS_UPDATED s) st))) = []
            \<and> netlog (run eng evs (handleMessage (SETTINGS_UPDATED s) st)) = netlog st)"
proof -
  let ?st0 = "handleMessage (SETTINGS_UPDATED s) st"
  let ?st1 = "run eng evs ?st0"
  have st0: "?st0 = st\<lparr>settings := s, page := removeAllLabels (page st)\<rparr>"
    using assms(1) by (simp add: handleMessage_def Let_def)
  have off0: "\<not> enabled (settings ?st0)" using assms(1) by (simp add: st0)
  have off1: "\<not> enabled (settings ?st1)"
    by (rule run_stays_disabled [OF assms(2) off0])
  have scan: "step eng TimerFires ?st1 = ?st1
      \<or> step eng TimerFires ?st1 = ?st1\<lparr>timers := timers ?st1 - 1\<rparr>"
    using off1 by (simp add: step_def processSearchResults_disabled)
  have q: "quiet (netlog st) ?st1" if "inflight st = []"
  proof -
    have "quiet (netlog st) ?st0" using that assms(1) by (simp add: quiet_def st0)
    from run_stays_quiet [OF assms(2) this] show ?thesis .
  qed
  have "page (step eng TimerFires ?st1) = page ?st1
      \<and> netlog (step eng TimerFires ?st1) = netlog ?st1"
    using scan by auto
  then show ?thesis using off1 q by (auto simp: st0 quiet_def)
qed

theorem disabled_scans_render_nothing_witness:
  "\<not> enabled switched_off
   \<and> \<not> re_enables Mutation \<and> \<not> re_enables TimerFires
   \<and> \<not> re_enables (Message CLEAR_CACHE)
   \<and> inflight cached_state = []
   \<and> all_labels (page (run stub_engine [Mutation, TimerFires, Message CLEAR_CACHE, TimerFires]
        (handleMessage (SETTINGS_UPDATED switched_off) cached_state))) = []
   \<and> netlog (run stub_engine [Mutation, TimerFires, Message CLEAR_CACHE, TimerFires]
        (handleMessage (SETTINGS_UPDATED switched_off) cached_state)) = []"
  using disabled_scans_render_nothing
    [of switched_off "[Mutation, TimerFires, Message CLEAR_CACHE, TimerFires]" cached_state
        stub_engine]
  by (simp add: switched_off_def cached_state_eq)

subsection \<open>C10: the cache is read whatever the settings are\<close>

text \<open>
  C10. For a result with a link and a title whose URL is in the cache,
  \<open>processSearchResult\<close> under any settings sends no request, suspends no call and
  leaves the page as it does under the current settings: the lookup does not read the
  settings. A settings update leaves the cache as it is, and with \<open>cacheResults\<close> false
  the continuation of a request leaves the cache as it is: the setting gates the writes
  only.
\<close>

theorem cache_read_ignores_settings:
  assumes "i < length (results (page st))"
    and "link (results (page st) ! i) = Some u"
    and "title_of (results (page st) ! i) = Some t"
    and "cache st u = Some a"
  shows "netlog (processSearchResult eng i (st\<lparr>settings := s\<rparr>)) = netlog st
       \<and> inflight (processSearchResult eng i (st\<lparr>settings := s\<rparr>)) = inflight st
       \<and> page (processSearchResult eng i (st\<lparr>settings := s\<rparr>))
           = page (processSearchResult eng i st)
       \<and> cache (handleMessage (SETTINGS_UPDATED s) st) = cache st
       \<and> (\<not> cacheResults (settings st) \<longrightarrow> cache (resume eng k out st) = cache st)"
proof -
  have 1: "netlog (processSearchResult eng i (st\<lparr>settings := s\<rparr>)) = netlog st
       \<and> inflight (processSearchResult eng i (st\<lparr>settings := s\<rparr>)) = inflight st
       \<and> page (processSearchResult eng i (st\<lparr>settings := s\<rparr>))
           = page (processSearchResult eng i st)"
    using assms by (simp add: processSearchResult_def Let_def catch_block_def split: sum.splits)
  have 2: "cache (handleMessage (SETTINGS_UPDATED s) st) = cache st"
    by (simp add: handleMessage_def Let_def waitForSearchResults_def)
  have 3: "\<not> cacheResults (settings st) \<Longrightarrow> cache (resume eng k out st) = cache st"
    by (simp add: resume_def Let_def catch_block_def split: prod.splits sum.splits)
  from 1 2 3 show ?thesis by blast
qed

theorem cache_read_ignores_settings_witness:
  "0 < length (results (page cached_state))
   \<and> link (results (page cached_state) ! 0) = Some ''http://example.com/a''
   \<and> title_of (results (page cached_state) ! 0) = Some ''Example''
   \<and> cache cached_state ''http://example.com/a'' = Some example_data
   \<and> \<not> cacheResults caching_off
   \<and> netlog (processSearchResult stub_engine 0 (cached_state\<lparr>settings := caching_off\<rparr>)) = []
   \<and> all_labels (page (processSearchResult stub_engine 0
        (cached_state\<lparr>settings := caching_off\<rparr>)))
       = [Verdict True (Finite 87) ''ok'' ''X'' example_data ''http://example.com/a'']
   \<and> cache (handleMessage (SETTINGS_UPDATED caching_off) cached_state)
        ''http://example.com/a'' = Some example_data"
  using cache_read_ignores_settings
    [of 0 cached_state "''http://example.com/a''" "''Example''" example_data stub_engine
        caching_off 0 "Rejected []"]
  by (simp add: cached_state_eq caching_off_def example_page_def example_result_def
      title_of_def processSearchResult_def set_mark_def displayLabel_example_data
      insertLabel_def put_inside_def add_widget_def finally_block_def
      removeLoadingIndicator_def all_labels_def Let_def)

end
